theory Spec2Isabelle
  imports Main "HOL-Library.Word"
begin

unbundle bit_operations_syntax

section \<open>MiniTimerOne: the 16 bit Timer1 of the ATmega328P\<close>

text \<open>
  The embedding follows \<^verbatim>\<open>Progetto-01/led_to_bag/MiniTimerOne.cpp\<close>. On the AVR target
  \<^verbatim>\<open>unsigned long\<close> has 32 bits, \<^verbatim>\<open>int\<close> and \<^verbatim>\<open>unsigned int\<close> have 16 bits, the
  registers \<^verbatim>\<open>TCCR1A\<close>, \<^verbatim>\<open>TCCR1B\<close>, \<^verbatim>\<open>TIMSK1\<close> have 8 bits and \<^verbatim>\<open>TCNT1\<close>, \<^verbatim>\<open>OCR1A\<close>
  have 16 bits.
\<close>

type_synonym uint8 = "8 word"
type_synonym uint16 = "16 word"
type_synonym uint32 = "32 word"

text \<open>
  A \<^verbatim>\<open>void (*)(void)\<close>: either the file's own \<^verbatim>\<open>emptyCallback\<close> or some other function,
  named by its address.
\<close>

datatype fnptr = emptyCallback | UserFunction nat

text \<open>A pointer is null or refers to an object.\<close>

datatype 'a ptr = nullptr | Ref 'a

datatype fault = NullDereference | OutOfBounds

text \<open>
  The bit numbers \<^verbatim>\<open>CS10\<close>, \<^verbatim>\<open>CS11\<close>, \<^verbatim>\<open>CS12\<close>, \<^verbatim>\<open>WGM12\<close> and \<^verbatim>\<open>OCIE1A\<close> come from the
  device header, which is not part of the repository: every operation takes them as a
  parameter.
\<close>

record iodefs =
  CS10 :: nat
  CS11 :: nat
  CS12 :: nat
  WGM12 :: nat
  OCIE1A :: nat

text \<open>The values the ATmega328P data sheet gives them; used for concrete runs only.\<close>

definition atmega328p :: iodefs where
  "atmega328p = \<lparr>CS10 = 0, CS11 = 1, CS12 = 2, WGM12 = 3, OCIE1A = 1\<rparr>"

text \<open>\<^verbatim>\<open>_BV(bit)\<close> is \<^verbatim>\<open>(1 << (bit))\<close>, computed in \<^verbatim>\<open>int\<close>.\<close>

definition BV :: "nat \<Rightarrow> uint16" where
  "BV b = push_bit b 1"

definition TIMER1_MAX_VALUE :: uint32 where
  "TIMER1_MAX_VALUE = 65536"

definition CYCLES_PER_MICROSEC :: int where
  "CYCLES_PER_MICROSEC = 16"

text \<open>
  The fields of the class. Its declaration is in a header that is not part of the sources;
  \<open>clockSelectBits\<close> has the type of the table entries that are assigned to it.
\<close>

record MiniTimerOne =
  clockSelectBits :: uint16
  isrCallback :: fnptr

datatype reg16 = R_TCNT1 | R_OCR1A

text \<open>
  The state the file's functions act on: the static member \<^verbatim>\<open>SINGLETON\<close>, the object the
  methods are called on (\<open>this_obj\<close>: in this program the file-scope object \<^verbatim>\<open>MiniTimer1\<close>,
  the one the interrupt handler reads), the timer's registers and the global interrupt
  enable flag of \<^verbatim>\<open>SREG\<close>. \<open>writes16\<close> is a history of the writes to the 16 bit registers, each with the
  value written and the interrupt flag at the moment of the write.
\<close>

record state =
  SINGLETON :: "MiniTimerOne ptr"
  this_obj :: MiniTimerOne
  TCCR1A :: uint8
  TCCR1B :: uint8
  TIMSK1 :: uint8
  TCNT1 :: uint16
  OCR1A :: uint16
  SREG_I :: bool
  writes16 :: "(reg16 \<times> uint16 \<times> bool) list"

definition cli :: "state \<Rightarrow> state" where
  "cli s = s\<lparr>SREG_I := False\<rparr>"

definition sei :: "state \<Rightarrow> state" where
  "sei s = s\<lparr>SREG_I := True\<rparr>"

definition set_TCNT1 :: "uint16 \<Rightarrow> state \<Rightarrow> state" where
  "set_TCNT1 v s = s\<lparr>TCNT1 := v, writes16 := writes16 s @ [(R_TCNT1, v, SREG_I s)]\<rparr>"

definition set_OCR1A :: "uint16 \<Rightarrow> state \<Rightarrow> state" where
  "set_OCR1A v s = s\<lparr>OCR1A := v, writes16 := writes16 s @ [(R_OCR1A, v, SREG_I s)]\<rparr>"

definition set_clockSelectBits :: "uint16 \<Rightarrow> state \<Rightarrow> state" where
  "set_clockSelectBits v s = s\<lparr>this_obj := (this_obj s)\<lparr>clockSelectBits := v\<rparr>\<rparr>"

definition set_isrCallback :: "fnptr \<Rightarrow> state \<Rightarrow> state" where
  "set_isrCallback f s = s\<lparr>this_obj := (this_obj s)\<lparr>isrCallback := f\<rparr>\<rparr>"

definition getInstance :: "state \<Rightarrow> MiniTimerOne ptr" where
  "getInstance s = SINGLETON s"

text \<open>The default constructor, building the object the state holds.\<close>

definition MiniTimerOne_ctor :: "state \<Rightarrow> state" where
  "MiniTimerOne_ctor s = set_isrCallback emptyCallback (set_clockSelectBits 0 s)"

definition init :: "iodefs \<Rightarrow> state \<Rightarrow> state" where
  "init d s =
     sei (set_TCNT1 0 (cli (s\<lparr>TCCR1B := ucast (BV (WGM12 d)), TCCR1A := 0, TIMSK1 := 0\<rparr>)))"

definition prescalerValues :: "int list" where
  "prescalerValues = [1, 8, 64, 256, 1024]"

definition csBitsValues :: "iodefs \<Rightarrow> uint16 list" where
  "csBitsValues d =
     [BV (CS10 d), BV (CS11 d), BV (CS11 d) OR BV (CS10 d), BV (CS12 d),
      BV (CS12 d) OR BV (CS10 d)]"

text \<open>\<^verbatim>\<open>const unsigned long int cycles = CYCLES_PER_MICROSEC * period\<close>: a 32 bit product.\<close>

definition cycles_of :: "uint32 \<Rightarrow> uint32" where
  "cycles_of period = of_int CYCLES_PER_MICROSEC * period"

text \<open>The body of the \<^verbatim>\<open>if\<close> inside the loop, for the table entry \<open>i\<close>.\<close>

definition configure_entry :: "iodefs \<Rightarrow> uint32 \<Rightarrow> nat \<Rightarrow> state \<Rightarrow> state" where
  "configure_entry d cycles i s =
     sei (set_OCR1A (ucast (cycles div of_int (prescalerValues ! i)))
       (cli (set_clockSelectBits (csBitsValues d ! i) s)))"

text \<open>
  \<^verbatim>\<open>for (int i = 0; i < 5 && !timerSet; i++)\<close>. The counter only takes the values 0 to 5,
  so it is a natural number here. The result is \<open>timerSet\<close> and the state after the loop.
\<close>

function setPeriod_loop :: "iodefs \<Rightarrow> uint32 \<Rightarrow> nat \<Rightarrow> bool \<Rightarrow> state \<Rightarrow> bool \<times> state" where
  "setPeriod_loop d cycles i timerSet s =
     (if i < 5 \<and> \<not> timerSet then
        (if cycles < TIMER1_MAX_VALUE * of_int (prescalerValues ! i)
         then setPeriod_loop d cycles (i + 1) True (configure_entry d cycles i s)
         else setPeriod_loop d cycles (i + 1) timerSet s)
      else (timerSet, s))"
  by pat_completeness auto
termination
  by (relation "measure (\<lambda>(d, cycles, i, timerSet, s). 5 - i)") auto

declare setPeriod_loop.simps [simp del]

definition clamp_to_max :: "iodefs \<Rightarrow> state \<Rightarrow> state" where
  "clamp_to_max d s =
     sei (set_OCR1A (ucast (TIMER1_MAX_VALUE - 1))
       (cli (set_clockSelectBits (BV (CS12 d) OR BV (CS10 d)) s)))"

definition setPeriod :: "iodefs \<Rightarrow> uint32 \<Rightarrow> state \<Rightarrow> state" where
  "setPeriod d period s =
     (case setPeriod_loop d (cycles_of period) 0 False s of
        (timerSet, s') \<Rightarrow> if \<not> timerSet then clamp_to_max d s' else s')"

definition attachInterrupt :: "iodefs \<Rightarrow> fnptr \<Rightarrow> state \<Rightarrow> state" where
  "attachInterrupt d isr s =
     (let s1 = set_isrCallback isr s in s1\<lparr>TIMSK1 := TIMSK1 s1 OR ucast (BV (OCIE1A d))\<rparr>)"

definition detachInterrupt :: "state \<Rightarrow> state" where
  "detachInterrupt s = set_isrCallback emptyCallback (s\<lparr>TIMSK1 := 0\<rparr>)"

definition start :: "state \<Rightarrow> state" where
  "start s = s\<lparr>TCCR1B := TCCR1B s OR ucast (clockSelectBits (this_obj s))\<rparr>"

definition stop :: "iodefs \<Rightarrow> state \<Rightarrow> state" where
  "stop d s = s\<lparr>TCCR1B := ucast (BV (WGM12 d))\<rparr>"

definition reset :: "state \<Rightarrow> state" where
  "reset s = sei (set_TCNT1 0 (cli s))"

definition getCallback :: "state \<Rightarrow> fnptr" where
  "getCallback s = isrCallback (this_obj s)"

text \<open>
  \<^verbatim>\<open>MiniTimerOne *MiniTimerOne::SINGLETON {};\<close>: the static member is value-initialised,
  to the null pointer, before anything else runs.
\<close>

definition SINGLETON_value_init :: "state \<Rightarrow> state" where
  "SINGLETON_value_init s = s\<lparr>SINGLETON := nullptr\<rparr>"

text \<open>
  \<^verbatim>\<open>MiniTimerOne MiniTimer1 = *MiniTimerOne::getInstance();\<close>: the object is copied from
  what the pointer refers to; dereferencing the null pointer is a fault.
\<close>

definition MiniTimer1_init :: "state \<Rightarrow> fault + state" where
  "MiniTimer1_init s =
     (case getInstance s of
        nullptr \<Rightarrow> Inl NullDereference
      | Ref obj \<Rightarrow> Inr (s\<lparr>this_obj := obj\<rparr>))"

text \<open>
  \<^verbatim>\<open>ISR(TIMER1_COMPA_vect) { (MiniTimer1.getCallback())(); }\<close>: the handler reads the
  callback of the object \<^verbatim>\<open>MiniTimer1\<close> and calls it; the result is the function called.
\<close>

definition ISR_TIMER1_COMPA :: "state \<Rightarrow> fnptr" where
  "ISR_TIMER1_COMPA s = getCallback s"

text \<open>The calls a program can make into the file, and a program as a list of them.\<close>

datatype call =
    Call_ctor
  | Call_init
  | Call_setPeriod uint32
  | Call_attachInterrupt fnptr
  | Call_detachInterrupt
  | Call_start
  | Call_stop
  | Call_reset

fun exec :: "iodefs \<Rightarrow> call \<Rightarrow> state \<Rightarrow> state" where
  "exec d Call_ctor s = MiniTimerOne_ctor s"
| "exec d Call_init s = init d s"
| "exec d (Call_setPeriod period) s = setPeriod d period s"
| "exec d (Call_attachInterrupt isr) s = attachInterrupt d isr s"
| "exec d Call_detachInterrupt s = detachInterrupt s"
| "exec d Call_start s = start s"
| "exec d Call_stop s = stop d s"
| "exec d Call_reset s = reset s"

fun run :: "iodefs \<Rightarrow> call list \<Rightarrow> state \<Rightarrow> state" where
  "run d [] s = s"
| "run d (c # cs) s = run d cs (exec d c s)"

text \<open>
  What happens before \<^verbatim>\<open>main\<close>: the static member is initialised, then the file-scope
  object \<^verbatim>\<open>MiniTimer1\<close>, once.
\<close>

definition static_initialisation :: "state \<Rightarrow> fault + state" where
  "static_initialisation s = MiniTimer1_init (SINGLETON_value_init s)"

text \<open>An execution: the static initialisation, then the calls the program makes.\<close>

definition execution :: "iodefs \<Rightarrow> call list \<Rightarrow> state \<Rightarrow> fault + state" where
  "execution d cs s =
     (case static_initialisation s of Inl e \<Rightarrow> Inl e | Inr s0 \<Rightarrow> Inr (run d cs s0))"

text \<open>A timer interrupt taken after those calls: the function the handler calls.\<close>

definition interrupt_after :: "iodefs \<Rightarrow> call list \<Rightarrow> state \<Rightarrow> fault + fnptr" where
  "interrupt_after d cs s =
     (case execution d cs s of Inl e \<Rightarrow> Inl e | Inr s' \<Rightarrow> Inr (ISR_TIMER1_COMPA s'))"

text \<open>A concrete state for running the operations: every register zero, interrupts off.\<close>

definition power_on :: state where
  "power_on = \<lparr>SINGLETON = nullptr,
     this_obj = \<lparr>clockSelectBits = 0, isrCallback = emptyCallback\<rparr>,
     TCCR1A = 0, TCCR1B = 0, TIMSK1 = 0, TCNT1 = 0, OCR1A = 0, SREG_I = False,
     writes16 = []\<rparr>"

section \<open>Scheduler: the cooperative task scheduler\<close>

text \<open>
  The embedding follows \<^verbatim>\<open>Scheduler.cpp\<close> and \<^verbatim>\<open>Scheduler.h\<close> of the smart dumpster
  controller. The classes \<^verbatim>\<open>Task\<close> and \<^verbatim>\<open>Timer\<close> are declared in headers that are not part
  of the sources: their methods are parameters, acting on a world \<open>'w\<close> that holds the task
  objects and the timer. The scheduler's own fields are private, so those methods cannot
  change them.
\<close>

type_synonym Task_ptr = nat

record 'w collaborators =
  updateAndCheckTime :: "Task_ptr \<Rightarrow> int \<Rightarrow> 'w \<Rightarrow> bool \<times> 'w"
  tick :: "Task_ptr \<Rightarrow> 'w \<Rightarrow> 'w"
  setupPeriod :: "int \<Rightarrow> 'w \<Rightarrow> 'w"
  waitForNextTick :: "'w \<Rightarrow> 'w"

definition MAX_TASKS :: int where
  "MAX_TASKS = 10"

text \<open>\<^verbatim>\<open>Task* taskList[MAX_TASKS]\<close> is a list; a well-formed scheduler keeps it at 10 slots.\<close>

record Scheduler =
  basePeriod :: int
  nTasks :: int
  taskList :: "Task_ptr list"

text \<open>What the scheduler does to its collaborators, in the order it does it.\<close>

datatype event =
    Ev_waitForNextTick
  | Ev_updateAndCheckTime Task_ptr int bool
  | Ev_tick Task_ptr

text \<open>
  \<^verbatim>\<open>timer = new Timer(); timer->setupPeriod(basePeriod);\<close> is the one step \<open>setupPeriod\<close> of
  the world, which holds the timer.
\<close>

definition Scheduler_init :: "'w collaborators \<Rightarrow> int \<Rightarrow> Scheduler \<Rightarrow> 'w \<Rightarrow> Scheduler \<times> 'w" where
  "Scheduler_init env bp sch w = (sch\<lparr>basePeriod := bp, nTasks := 0\<rparr>, setupPeriod env bp w)"

text \<open>A write outside the array is a fault.\<close>

definition addTask :: "Task_ptr \<Rightarrow> Scheduler \<Rightarrow> fault + (bool \<times> Scheduler)" where
  "addTask task sch =
     (if nTasks sch < MAX_TASKS - 1 then
        (if 0 \<le> nTasks sch \<and> nat (nTasks sch) < length (taskList sch)
         then Inr (True, sch\<lparr>taskList := (taskList sch)[nat (nTasks sch) := task],
                              nTasks := nTasks sch + 1\<rparr>)
         else Inl OutOfBounds)
      else Inr (False, sch))"

text \<open>
  \<^verbatim>\<open>for (int i = 0; i < nTasks; i++)\<close>, from the counter \<open>i\<close> on. The counter starts at 0
  and only grows, so it is a natural number here.
\<close>

function schedule_loop ::
  "'w collaborators \<Rightarrow> Scheduler \<Rightarrow> nat \<Rightarrow> 'w \<times> event list \<Rightarrow> fault + ('w \<times> event list)" where
  "schedule_loop env sch i (w, tr) =
     (if int i < nTasks sch then
        (if i < length (taskList sch) then
           (case updateAndCheckTime env (taskList sch ! i) (basePeriod sch) w of
              (due, w1) \<Rightarrow>
                if due
                then schedule_loop env sch (i + 1)
                       (tick env (taskList sch ! i) w1,
                        tr @ [Ev_updateAndCheckTime (taskList sch ! i) (basePeriod sch) due,
                              Ev_tick (taskList sch ! i)])
                else schedule_loop env sch (i + 1)
                       (w1, tr @ [Ev_updateAndCheckTime (taskList sch ! i) (basePeriod sch) due]))
         else Inl OutOfBounds)
      else Inr (w, tr))"
  by pat_completeness auto
termination
  by (relation "measure (\<lambda>(env, sch, i, wt). nat (nTasks sch) - i)") auto

declare schedule_loop.simps [simp del]

definition schedule :: "'w collaborators \<Rightarrow> Scheduler \<Rightarrow> 'w \<times> event list \<Rightarrow> fault + ('w \<times> event list)" where
  "schedule env sch wt =
     (case wt of (w, tr) \<Rightarrow>
        schedule_loop env sch 0 (waitForNextTick env w, tr @ [Ev_waitForNextTick]))"

text \<open>The registered tasks, in registration order.\<close>

definition registered :: "Scheduler \<Rightarrow> Task_ptr list" where
  "registered sch = take (nat (nTasks sch)) (taskList sch)"

definition well_formed :: "Scheduler \<Rightarrow> bool" where
  "well_formed sch \<longleftrightarrow>
     0 \<le> nTasks sch \<and> nTasks sch \<le> MAX_TASKS - 1 \<and> int (length (taskList sch)) = MAX_TASKS"

text \<open>
  The pass the specification describes, over a list of tasks: one
  \<^verbatim>\<open>updateAndCheckTime(basePeriod)\<close> for each task in order, and \<^verbatim>\<open>tick()\<close> at once when
  it answers true, before the next task.
\<close>

fun in_order_pass ::
  "'w collaborators \<Rightarrow> int \<Rightarrow> Task_ptr list \<Rightarrow> 'w \<times> event list \<Rightarrow> 'w \<times> event list" where
  "in_order_pass env bp [] (w, tr) = (w, tr)"
| "in_order_pass env bp (t # ts) (w, tr) =
     (case updateAndCheckTime env t bp w of
        (due, w1) \<Rightarrow>
          if due
          then in_order_pass env bp ts (tick env t w1, tr @ [Ev_updateAndCheckTime t bp due, Ev_tick t])
          else in_order_pass env bp ts (w1, tr @ [Ev_updateAndCheckTime t bp due]))"

text \<open>The events of such a pass, given what each task answered.\<close>

fun pass_events :: "int \<Rightarrow> (Task_ptr \<times> bool) list \<Rightarrow> event list" where
  "pass_events bp [] = []"
| "pass_events bp ((t, due) # r) =
     Ev_updateAndCheckTime t bp due # (if due then [Ev_tick t] else []) @ pass_events bp r"

text \<open>Concrete collaborators: the world counts the calls of \<^verbatim>\<open>tick\<close>; task 1 is always due.\<close>

definition demo_collaborators :: "nat collaborators" where
  "demo_collaborators =
     \<lparr>updateAndCheckTime = (\<lambda>t bp w. (t = 1, w)), tick = (\<lambda>t w. w + 1),
      setupPeriod = (\<lambda>bp w. w), waitForNextTick = (\<lambda>w. w)\<rparr>"

definition demo_scheduler :: Scheduler where
  "demo_scheduler = \<lparr>basePeriod = 1000, nTasks = 2, taskList = [1, 2, 0, 0, 0, 0, 0, 0, 0, 0]\<rparr>"

definition full_scheduler :: Scheduler where
  "full_scheduler = \<lparr>basePeriod = 1000, nTasks = 9, taskList = [1, 2, 3, 4, 5, 6, 7, 8, 9, 0]\<rparr>"

section \<open>Properties of MiniTimerOne\<close>

subsection \<open>The prescaler scan\<close>

lemma setPeriod_loop_set: "setPeriod_loop d c i True s = (True, s)"
  by (simp add: setPeriod_loop.simps)

lemma setPeriod_loop_end: "5 \<le> i \<Longrightarrow> setPeriod_loop d c i b s = (b, s)"
  by (simp add: setPeriod_loop.simps)

lemma setPeriod_loop_hit:
  "i < 5 \<Longrightarrow> c < TIMER1_MAX_VALUE * of_int (prescalerValues ! i) \<Longrightarrow>
   setPeriod_loop d c i False s = (True, configure_entry d c i s)"
  by (subst setPeriod_loop.simps) (simp add: setPeriod_loop_set)

lemma setPeriod_loop_miss:
  "i < 5 \<Longrightarrow> \<not> c < TIMER1_MAX_VALUE * of_int (prescalerValues ! i) \<Longrightarrow>
   setPeriod_loop d c i False s = setPeriod_loop d c (Suc i) False s"
  by (subst setPeriod_loop.simps) simp

lemma setPeriod_loop_first:
  "k \<le> i \<Longrightarrow> i < 5 \<Longrightarrow> c < TIMER1_MAX_VALUE * of_int (prescalerValues ! i) \<Longrightarrow>
   (\<And>j. k \<le> j \<Longrightarrow> j < i \<Longrightarrow> \<not> c < TIMER1_MAX_VALUE * of_int (prescalerValues ! j)) \<Longrightarrow>
   setPeriod_loop d c k False s = (True, configure_entry d c i s)"
proof (induction "i - k" arbitrary: k)
  case 0
  then have "k = i" by simp
  with 0 show ?case by (simp add: setPeriod_loop_hit)
next
  case (Suc n)
  then have lt: "k < i" by simp
  then have miss: "\<not> c < TIMER1_MAX_VALUE * of_int (prescalerValues ! k)"
    using Suc.prems(4) [of k] by simp
  have "setPeriod_loop d c k False s = setPeriod_loop d c (Suc k) False s"
    using lt Suc.prems(2) miss by (simp add: setPeriod_loop_miss)
  also have "\<dots> = (True, configure_entry d c i s)"
    using Suc.hyps(2) lt Suc.prems by (intro Suc.hyps(1)) auto
  finally show ?case .
qed

lemma setPeriod_loop_none:
  "(\<And>j. k \<le> j \<Longrightarrow> j < 5 \<Longrightarrow> \<not> c < TIMER1_MAX_VALUE * of_int (prescalerValues ! j)) \<Longrightarrow>
   setPeriod_loop d c k False s = (False, s)"
proof (induction "5 - k" arbitrary: k)
  case 0
  then show ?case by (simp add: setPeriod_loop_end)
next
  case (Suc n)
  then have lt: "k < 5" by simp
  have "setPeriod_loop d c k False s = setPeriod_loop d c (Suc k) False s"
    using lt Suc.prems [of k] by (simp add: setPeriod_loop_miss)
  also have "\<dots> = (False, s)"
    using Suc.hyps(2) Suc.prems by (intro Suc.hyps(1)) auto
  finally show ?case .
qed


lemma index_cases: "i < (5::nat) \<Longrightarrow> i = 0 \<or> i = 1 \<or> i = 2 \<or> i = 3 \<or> i = 4"
  by arith

lemma hit_iff:
  "i < 5 \<Longrightarrow> (c < TIMER1_MAX_VALUE * of_int (prescalerValues ! i)) = (uint c < 65536 * (prescalerValues ! i))"
  by (drule index_cases) (auto simp: TIMER1_MAX_VALUE_def prescalerValues_def word_less_def)

lemma uint_cycles_of: "uint (cycles_of P) = (16 * uint P) mod 2 ^ 32"
  by (simp add: cycles_of_def CYCLES_PER_MICROSEC_def uint_word_ariths)



lemma uint_compare_value:
  fixes c :: uint32
  assumes "i < 5" "uint c < 65536 * (prescalerValues ! i)"
  shows "uint (ucast (c div of_int (prescalerValues ! i)) :: uint16) = uint c div (prescalerValues ! i)"
proof -
  have pos: "0 < prescalerValues ! i"
    using index_cases [OF assms(1)] by (auto simp: prescalerValues_def)
  have k: "uint (of_int (prescalerValues ! i) :: uint32) = prescalerValues ! i"
    using index_cases [OF assms(1)] by (auto simp: prescalerValues_def)
  have "uint c div (prescalerValues ! i) < 65536"
    using index_cases [OF assms(1)] assms(2) by (auto simp: prescalerValues_def)
  moreover have "0 \<le> uint c div (prescalerValues ! i)"
    using pos by (simp add: pos_imp_zdiv_nonneg_iff)
  ultimately show ?thesis
    by (simp add: unsigned_ucast_eq take_bit_eq_mod uint_div k)
qed


lemma prescalerValues_mono: "i \<le> j \<Longrightarrow> j < 5 \<Longrightarrow> prescalerValues ! i \<le> prescalerValues ! j"
proof -
  have "sorted prescalerValues" by (simp add: prescalerValues_def)
  moreover have "length prescalerValues = 5" by (simp add: prescalerValues_def)
  ultimately show "i \<le> j \<Longrightarrow> j < 5 \<Longrightarrow> prescalerValues ! i \<le> prescalerValues ! j"
    by (simp add: sorted_nth_mono)
qed

lemma configure_entry_fields:
  "clockSelectBits (this_obj (configure_entry d c i s)) = csBitsValues d ! i"
  "OCR1A (configure_entry d c i s) = ucast (c div of_int (prescalerValues ! i))"
  "SREG_I (configure_entry d c i s) = True"
  "isrCallback (this_obj (configure_entry d c i s)) = isrCallback (this_obj s)"
  "SINGLETON (configure_entry d c i s) = SINGLETON s"
  by (simp_all add: configure_entry_def sei_def cli_def set_OCR1A_def set_clockSelectBits_def)

lemma setPeriod_first:
  assumes "i < 5" "uint (cycles_of P) < 65536 * prescalerValues ! i"
    and "\<And>j. j < i \<Longrightarrow> \<not> uint (cycles_of P) < 65536 * prescalerValues ! j"
  shows "setPeriod d P s = configure_entry d (cycles_of P) i s"
proof -
  have "setPeriod_loop d (cycles_of P) 0 False s = (True, configure_entry d (cycles_of P) i s)"
  proof (rule setPeriod_loop_first)
    show "cycles_of P < TIMER1_MAX_VALUE * of_int (prescalerValues ! i)"
      using assms(1,2) by (simp add: hit_iff)
    show "\<not> cycles_of P < TIMER1_MAX_VALUE * of_int (prescalerValues ! j)" if "j < i" for j
      using that assms(1,3) by (simp add: hit_iff)
  qed (use assms(1) in simp_all)
  then show ?thesis by (simp add: setPeriod_def)
qed

lemma setPeriod_none:
  assumes "\<And>j. j < 5 \<Longrightarrow> \<not> uint (cycles_of P) < 65536 * prescalerValues ! j"
  shows "setPeriod d P s = clamp_to_max d s"
proof -
  have "setPeriod_loop d (cycles_of P) 0 False s = (False, s)"
    using assms by (intro setPeriod_loop_none) (simp add: hit_iff)
  then show ?thesis by (simp add: setPeriod_def)
qed

lemma setPeriod_first_fitting_entry:
  assumes "uint P * 16 < 65536 * 1024"
  shows "\<exists>i<5. uint P * 16 < 65536 * prescalerValues ! i
     \<and> (\<forall>j<i. \<not> uint P * 16 < 65536 * prescalerValues ! j)
     \<and> (\<forall>j<5. uint P * 16 < 65536 * prescalerValues ! j \<longrightarrow> prescalerValues ! i \<le> prescalerValues ! j)
     \<and> clockSelectBits (this_obj (setPeriod d P s)) = csBitsValues d ! i
     \<and> uint (OCR1A (setPeriod d P s)) = (uint P * 16) div prescalerValues ! i"
proof -
  define fits where "fits j \<longleftrightarrow> uint P * 16 < 65536 * prescalerValues ! j" for j
  define i where "i = (LEAST j. fits j)"
  have c: "uint (cycles_of P) = uint P * 16"
    using assms by (simp add: uint_cycles_of)
  have "fits 4" using assms by (simp add: fits_def prescalerValues_def)
  then have fi: "fits i" and "i \<le> 4"
    unfolding i_def by (rule LeastI, rule Least_le)
  then have i5: "i < 5" by simp
  have least: "\<not> fits j" if "j < i" for j
    using that not_less_Least unfolding i_def by blast
  have min: "prescalerValues ! i \<le> prescalerValues ! j" if "j < 5" "fits j" for j
  proof -
    have "i \<le> j" unfolding i_def using that(2) by (rule Least_le)
    then show ?thesis using that(1) by (rule prescalerValues_mono)
  qed
  have sp: "setPeriod d P s = configure_entry d (cycles_of P) i s"
    using i5 fi least by (intro setPeriod_first) (simp_all add: c fits_def)
  have "uint (OCR1A (setPeriod d P s)) = (uint P * 16) div prescalerValues ! i"
    using uint_compare_value [of i "cycles_of P"] i5 fi
    by (simp add: sp configure_entry_fields c fits_def)
  moreover have "clockSelectBits (this_obj (setPeriod d P s)) = csBitsValues d ! i"
    by (simp add: sp configure_entry_fields)
  ultimately show ?thesis
    using i5 fi least min unfolding fits_def by blast
qed

text \<open>
  C1. For every period \<open>P\<close> with \<open>P * 16 < 65536 * 1024\<close>, \<open>setPeriod\<close> selects the smallest
  prescaler \<open>p\<close> among 1, 8, 64, 256, 1024 with \<open>P * 16 < 65536 * p\<close>, stores the clock select
  bits of that prescaler (\<open>_BV(CS10)\<close> for 1, \<open>_BV(CS11)\<close> for 8, \<open>_BV(CS11) | _BV(CS10)\<close> for
  64, \<open>_BV(CS12)\<close> for 256, \<open>_BV(CS12) | _BV(CS10)\<close> for 1024) and sets the compare register
  to \<open>(P * 16) div p\<close>.
\<close>

theorem setPeriod_selects_smallest_prescaler:
  assumes "uint P * 16 < 65536 * 1024"
  shows "\<exists>p bits.
       (p, bits) \<in> set [(1, BV (CS10 d)), (8, BV (CS11 d)), (64, BV (CS11 d) OR BV (CS10 d)),
                       (256, BV (CS12 d)), (1024, BV (CS12 d) OR BV (CS10 d))]
     \<and> uint P * 16 < 65536 * p
     \<and> (\<forall>q \<in> {1, 8, 64, 256, 1024}. uint P * 16 < 65536 * q \<longrightarrow> p \<le> q)
     \<and> clockSelectBits (this_obj (setPeriod d P s)) = bits
     \<and> uint (OCR1A (setPeriod d P s)) = (uint P * 16) div p"
proof -
  from setPeriod_first_fitting_entry [OF assms, of d s] obtain i where
    i: "i < 5"
    and fit: "uint P * 16 < 65536 * prescalerValues ! i"
    and min: "\<And>j. j < 5 \<Longrightarrow> uint P * 16 < 65536 * prescalerValues ! j \<Longrightarrow>
                prescalerValues ! i \<le> prescalerValues ! j"
    and bits: "clockSelectBits (this_obj (setPeriod d P s)) = csBitsValues d ! i"
    and ocr: "uint (OCR1A (setPeriod d P s)) = (uint P * 16) div prescalerValues ! i"
    by blast
  have tab: "(prescalerValues ! i, csBitsValues d ! i) \<in>
      set [(1, BV (CS10 d)), (8, BV (CS11 d)), (64, BV (CS11 d) OR BV (CS10 d)),
           (256, BV (CS12 d)), (1024, BV (CS12 d) OR BV (CS10 d))]"
    using index_cases [OF i] by (auto simp: prescalerValues_def csBitsValues_def)
  have least: "prescalerValues ! i \<le> q"
    if "q \<in> {1, 8, 64, 256, 1024}" "uint P * 16 < 65536 * q" for q
  proof -
    from that(1) have "q = prescalerValues ! 0 \<or> q = prescalerValues ! 1
        \<or> q = prescalerValues ! 2 \<or> q = prescalerValues ! 3 \<or> q = prescalerValues ! 4"
      by (auto simp: prescalerValues_def)
    then show ?thesis
      using min [of 0] min [of 1] min [of 2] min [of 3] min [of 4] that(2) by auto
  qed
  from tab fit least bits ocr show ?thesis by blast
qed

theorem setPeriod_selects_smallest_prescaler_witness:
  "uint (100000 :: uint32) * 16 < 65536 * 1024
   \<and> \<not> uint (100000 :: uint32) * 16 < 65536 * 8
   \<and> uint (100000 :: uint32) * 16 < 65536 * 64
   \<and> clockSelectBits (this_obj (setPeriod atmega328p 100000 power_on)) = 3
   \<and> uint (OCR1A (setPeriod atmega328p 100000 power_on)) = 25000"
proof -
  from setPeriod_selects_smallest_prescaler [of 100000 atmega328p power_on]
  obtain p bits where
    tab: "(p, bits) \<in> set [(1, BV (CS10 atmega328p)), (8, BV (CS11 atmega328p)),
            (64, BV (CS11 atmega328p) OR BV (CS10 atmega328p)), (256, BV (CS12 atmega328p)),
            (1024, BV (CS12 atmega328p) OR BV (CS10 atmega328p))]"
    and fit: "uint (100000 :: uint32) * 16 < 65536 * p"
    and min: "\<forall>q \<in> {1, 8, 64, 256, 1024}. uint (100000 :: uint32) * 16 < 65536 * q \<longrightarrow> p \<le> q"
    and bits: "clockSelectBits (this_obj (setPeriod atmega328p 100000 power_on)) = bits"
    and ocr: "uint (OCR1A (setPeriod atmega328p 100000 power_on)) = (uint (100000 :: uint32) * 16) div p"
    by auto
  from min have "p \<le> 64" by simp
  with tab fit have p: "p = 64" and b: "bits = BV (CS11 atmega328p) OR BV (CS10 atmega328p)"
    by auto
  have "bits = 3" unfolding b by (simp add: atmega328p_def BV_def)
  with bits ocr p show ?thesis by simp
qed

subsection \<open>Periods beyond the largest prescaler\<close>

lemma clamp_to_max_fields:
  "clockSelectBits (this_obj (clamp_to_max d s)) = BV (CS12 d) OR BV (CS10 d)"
  "OCR1A (clamp_to_max d s) = 65535"
  "SREG_I (clamp_to_max d s) = True"
  "isrCallback (this_obj (clamp_to_max d s)) = isrCallback (this_obj s)"
  "SINGLETON (clamp_to_max d s) = SINGLETON s"
  by (simp_all add: clamp_to_max_def sei_def cli_def set_OCR1A_def set_clockSelectBits_def
      TIMER1_MAX_VALUE_def)

lemma setPeriod_cases:
  "(\<exists>i<5. setPeriod d P s = configure_entry d (cycles_of P) i s) \<or>
   setPeriod d P s = clamp_to_max d s"
proof (cases "\<exists>j<5. uint (cycles_of P) < 65536 * prescalerValues ! j")
  case True
  define fits where "fits j \<longleftrightarrow> j < 5 \<and> uint (cycles_of P) < 65536 * prescalerValues ! j" for j
  define i where "i = (LEAST j. fits j)"
  from True obtain j where "fits j" unfolding fits_def by blast
  then have fi: "fits i" unfolding i_def by (rule LeastI)
  have least: "\<not> fits j" if "j < i" for j
    using that not_less_Least unfolding i_def by blast
  have "setPeriod d P s = configure_entry d (cycles_of P) i s"
  proof (rule setPeriod_first)
    show "i < 5" using fi by (simp add: fits_def)
    show "uint (cycles_of P) < 65536 * prescalerValues ! i" using fi by (simp add: fits_def)
    show "\<not> uint (cycles_of P) < 65536 * prescalerValues ! j" if "j < i" for j
      using least [OF that] that fi by (simp add: fits_def)
  qed
  then show ?thesis using fi unfolding fits_def by blast
next
  case False
  then have "setPeriod d P s = clamp_to_max d s"
    by (intro setPeriod_none) blast
  then show ?thesis ..
qed

lemma setPeriod_clamps_below_wrap:
  assumes "65536 * 1024 \<le> uint P * 16" "uint P * 16 < 2 ^ 32"
  shows "setPeriod d P s = clamp_to_max d s"
proof (rule setPeriod_none)
  fix j :: nat
  assume j: "j < 5"
  have c: "uint (cycles_of P) = uint P * 16"
    using assms by (simp add: uint_cycles_of)
  have "prescalerValues ! j \<le> prescalerValues ! 4"
    using j by (intro prescalerValues_mono) simp_all
  then have "prescalerValues ! j \<le> 1024" by (simp add: prescalerValues_def)
  then show "\<not> uint (cycles_of P) < 65536 * prescalerValues ! j"
    using assms(1) by (simp add: c)
qed

text \<open>
  C2. The claim is that every period \<open>P\<close> with \<open>P * 16 \<ge> 65536 * 1024\<close> is clamped to
  the compare value 65535 with the bits of prescaler 1024. At \<open>P = 268435456\<close> the 32 bit
  product \<open>16 * P\<close> is 0: \<open>setPeriod\<close> takes the first table entry, stores the bits of
  prescaler 1 and sets the compare register to 0. (\<open>setPeriod_clamps_below_wrap\<close> above is
  the clamping for the periods whose product still fits 32 bits.)
\<close>

theorem setPeriod_overflow_misses_clamp:
  "65536 * 1024 \<le> uint (268435456 :: uint32) * 16
   \<and> cycles_of 268435456 = 0
   \<and> setPeriod d 268435456 s = configure_entry d 0 0 s
   \<and> clockSelectBits (this_obj (setPeriod d 268435456 s)) = BV (CS10 d)
   \<and> OCR1A (setPeriod d 268435456 s) = 0
   \<and> OCR1A (setPeriod d 268435456 s) \<noteq> ucast (TIMER1_MAX_VALUE - 1)"
proof -
  have c: "cycles_of 268435456 = 0"
    by (simp add: cycles_of_def CYCLES_PER_MICROSEC_def)
  have sp: "setPeriod d 268435456 s = configure_entry d 0 0 s"
    using setPeriod_first [of 0 268435456 d s] by (simp add: c prescalerValues_def)
  show ?thesis
    by (simp add: c sp configure_entry_fields csBitsValues_def prescalerValues_def
        TIMER1_MAX_VALUE_def)
qed


text \<open>
  C9. The cycle count is \<open>16 * period\<close> modulo \<open>2 ^ 32\<close>. For every period above 268435455
  the product is at least \<open>2 ^ 32\<close> and the cycle count is smaller than it by a multiple of
  \<open>2 ^ 32\<close>. For one such period, 268435457, the cycle count is 16: \<open>setPeriod\<close> stores the
  bits of prescaler 1 and the compare value 16 instead of clamping to 65535.
\<close>

theorem cycles_wrap_selects_small_prescaler:
  "uint (cycles_of P) = (16 * uint P) mod 2 ^ 32
   \<and> (268435455 < uint P \<longrightarrow>
        2 ^ 32 \<le> 16 * uint P
        \<and> uint (cycles_of P) = 16 * uint P - 2 ^ 32 * (uint P div 2 ^ 28)
        \<and> uint (cycles_of P) < 16 * uint P)
   \<and> 268435455 < uint (268435457 :: uint32)
   \<and> uint (cycles_of 268435457) = 16
   \<and> clockSelectBits (this_obj (setPeriod d 268435457 s)) = csBitsValues d ! 0
   \<and> uint (OCR1A (setPeriod d 268435457 s)) = 16
   \<and> OCR1A (setPeriod d 268435457 s) \<noteq> ucast (TIMER1_MAX_VALUE - 1)"
proof -
  have m: "uint (cycles_of P) = (16 * uint P) mod 2 ^ 32"
    by (rule uint_cycles_of)
  have w: "2 ^ 32 \<le> 16 * uint P
        \<and> uint (cycles_of P) = 16 * uint P - 2 ^ 32 * (uint P div 2 ^ 28)
        \<and> uint (cycles_of P) < 16 * uint P" if "268435455 < uint P"
  proof -
    have "(16 * uint P) mod 2 ^ 32 = 16 * uint P - 2 ^ 32 * (uint P div 2 ^ 28)"
      by (simp add: minus_mult_div_eq_mod [symmetric] mult.commute)
    moreover have "1 \<le> uint P div 2 ^ 28" using that by simp
    ultimately show ?thesis using that by (simp add: m)
  qed
  have c: "uint (cycles_of 268435457) = 16"
    by (simp add: uint_cycles_of)
  have sp: "setPeriod d 268435457 s = configure_entry d (cycles_of 268435457) 0 s"
    by (rule setPeriod_first) (simp_all add: c prescalerValues_def)
  have o: "uint (OCR1A (setPeriod d 268435457 s)) = 16"
    using uint_compare_value [of 0 "cycles_of 268435457"]
    by (simp add: sp configure_entry_fields c prescalerValues_def)
  then have "OCR1A (setPeriod d 268435457 s) \<noteq> ucast (TIMER1_MAX_VALUE - 1)"
    by (auto simp: TIMER1_MAX_VALUE_def)
  with m w c o show ?thesis
    by (simp add: sp configure_entry_fields)
qed

theorem cycles_wrap_selects_small_prescaler_witness:
  "268435455 < uint (268435457 :: uint32)
   \<and> 2 ^ 32 \<le> 16 * uint (268435457 :: uint32)
   \<and> uint (cycles_of 268435457) = 16 * uint (268435457 :: uint32) - 2 ^ 32 * (uint (268435457 :: uint32) div 2 ^ 28)
   \<and> uint (cycles_of 268435457) < 16 * uint (268435457 :: uint32)
   \<and> uint (OCR1A (setPeriod atmega328p 268435457 power_on)) = 16"
  using cycles_wrap_selects_small_prescaler [of 268435457 atmega328p power_on] by simp

subsection \<open>The boundary of the strict comparison\<close>

text \<open>
  C3. When the cycle count is exactly 65536, the strict comparison \<open>65536 < 65536 * 1\<close> fails:
  \<open>setPeriod\<close> passes over prescaler 1 and takes the next entry, prescaler 8, with the
  compare value \<open>65536 div 8 = 8192\<close>.
\<close>

theorem setPeriod_exact_counterMax_selects_8:
  assumes "uint (cycles_of P) = 65536"
  shows "\<not> cycles_of P < TIMER1_MAX_VALUE * of_int (prescalerValues ! 0)
    \<and> cycles_of P < TIMER1_MAX_VALUE * of_int (prescalerValues ! 1)
    \<and> prescalerValues ! 1 = 8
    \<and> clockSelectBits (this_obj (setPeriod d P s)) = csBitsValues d ! 1
    \<and> uint (OCR1A (setPeriod d P s)) = 8192"
proof -
  have sp: "setPeriod d P s = configure_entry d (cycles_of P) 1 s"
    by (rule setPeriod_first) (simp_all add: assms prescalerValues_def)
  have "uint (OCR1A (setPeriod d P s)) = uint (cycles_of P) div prescalerValues ! 1"
    unfolding sp configure_entry_fields
    by (rule uint_compare_value) (simp_all add: assms prescalerValues_def)
  then have ocr: "uint (OCR1A (setPeriod d P s)) = 8192"
    by (simp add: assms prescalerValues_def)
  have miss: "\<not> cycles_of P < TIMER1_MAX_VALUE * of_int (prescalerValues ! 0)"
    using hit_iff [of 0 "cycles_of P"] by (simp add: assms prescalerValues_def)
  have hit: "cycles_of P < TIMER1_MAX_VALUE * of_int (prescalerValues ! 1)"
    using hit_iff [of 1 "cycles_of P"] by (simp add: assms prescalerValues_def)
  have "prescalerValues ! 1 = 8" by (simp add: prescalerValues_def)
  with miss hit ocr show ?thesis
    by (simp add: sp configure_entry_fields)
qed

theorem setPeriod_exact_counterMax_selects_8_witness:
  "uint (cycles_of 4096) = 65536
    \<and> \<not> cycles_of 4096 < TIMER1_MAX_VALUE * of_int (prescalerValues ! 0)
    \<and> cycles_of 4096 < TIMER1_MAX_VALUE * of_int (prescalerValues ! 1)
    \<and> prescalerValues ! 1 = 8
    \<and> clockSelectBits (this_obj (setPeriod atmega328p 4096 power_on)) = csBitsValues atmega328p ! 1
    \<and> uint (OCR1A (setPeriod atmega328p 4096 power_on)) = 8192"
proof -
  have c: "uint (cycles_of 4096) = 65536"
    by (simp add: uint_cycles_of)
  show ?thesis
    using setPeriod_exact_counterMax_selects_8 [OF c, of atmega328p power_on] c
    by blast
qed

text \<open>
  The specification's sentence that prescaler 1 is selected for the cycle count 65536
  does not hold of the code: for the period 4096 the stored bits are not those of the first
  table entry.
\<close>

theorem setPeriod_exact_counterMax_not_prescaler_1:
  "uint (4096 :: uint32) * 16 = 65536
   \<and> \<not> clockSelectBits (this_obj (setPeriod atmega328p 4096 power_on)) = csBitsValues atmega328p ! 0"
proof -
  have c: "uint (cycles_of 4096) = 65536"
    by (simp add: uint_cycles_of)
  have sp: "setPeriod atmega328p 4096 power_on = configure_entry atmega328p (cycles_of 4096) 1 power_on"
    by (rule setPeriod_first) (simp_all add: c prescalerValues_def)
  have "clockSelectBits (this_obj (setPeriod atmega328p 4096 power_on)) \<noteq> csBitsValues atmega328p ! 0"
    unfolding sp configure_entry_fields by (simp add: csBitsValues_def atmega328p_def BV_def)
  then show ?thesis by (simp add: c)
qed

subsection \<open>Critical sections\<close>

lemma reset_effect:
  "writes16 (reset s) = writes16 s @ [(R_TCNT1, 0, False)]"
  "SREG_I (reset s) = True"
  "TCNT1 (reset s) = 0"
  by (simp_all add: reset_def sei_def cli_def set_TCNT1_def)

lemma configure_entry_writes:
  "writes16 (configure_entry d c i s) =
     writes16 s @ [(R_OCR1A, ucast (c div of_int (prescalerValues ! i)), False)]"
  by (simp add: configure_entry_def sei_def cli_def set_OCR1A_def set_clockSelectBits_def)

lemma clamp_to_max_writes:
  "writes16 (clamp_to_max d s) = writes16 s @ [(R_OCR1A, 65535, False)]"
  by (simp add: clamp_to_max_def sei_def cli_def set_OCR1A_def set_clockSelectBits_def
      TIMER1_MAX_VALUE_def)

lemma setPeriod_effect:
  "writes16 (setPeriod d P s) = writes16 s @ [(R_OCR1A, OCR1A (setPeriod d P s), False)]"
  "SREG_I (setPeriod d P s) = True"
  using setPeriod_cases [of d P s]
  by (auto simp: configure_entry_writes clamp_to_max_writes configure_entry_fields
      clamp_to_max_fields)

text \<open>
  C4. \<open>setPeriod\<close> and \<open>reset\<close> each make exactly one write to a 16 bit register (the
  compare register, the counter register), at a moment when the global interrupt flag is
  off; on exit the flag is on, whatever it was on entry. It equals its value on entry
  exactly when interrupts were enabled on entry.
\<close>

theorem critical_section_ends_enabled:
  "writes16 (setPeriod d P s) = writes16 s @ [(R_OCR1A, OCR1A (setPeriod d P s), False)]
   \<and> writes16 (reset s) = writes16 s @ [(R_TCNT1, TCNT1 (reset s), False)]
   \<and> SREG_I (setPeriod d P s) = True
   \<and> SREG_I (reset s) = True
   \<and> (SREG_I (setPeriod d P s) = SREG_I s) = SREG_I s
   \<and> (SREG_I (reset s) = SREG_I s) = SREG_I s"
  by (simp add: reset_effect setPeriod_effect)

text \<open>
  The specification's sentence that the flag on exit equals the flag on entry does not hold
  of the code when either operation is called with interrupts disabled.
\<close>

theorem critical_section_does_not_restore_flag:
  "\<not> (SREG_I (reset (power_on\<lparr>SREG_I := False\<rparr>)) = SREG_I (power_on\<lparr>SREG_I := False\<rparr>))
   \<and> \<not> (SREG_I (setPeriod atmega328p 1000 (power_on\<lparr>SREG_I := False\<rparr>))
        = SREG_I (power_on\<lparr>SREG_I := False\<rparr>))"
  by (simp add: reset_effect setPeriod_effect)

subsection \<open>The interrupt callback\<close>

text \<open>
  C7. \<open>attachInterrupt\<close> twice is \<open>attachInterrupt\<close> once and \<open>detachInterrupt\<close> twice is
  \<open>detachInterrupt\<close> once, on the whole state (callback and \<open>TIMSK1\<close> included); after
  \<open>attachInterrupt f\<close> the callback read by \<open>getCallback\<close> is \<open>f\<close>, after \<open>detachInterrupt\<close> it
  is \<open>emptyCallback\<close>.
\<close>

theorem attach_detach_idempotent:
  "attachInterrupt d f (attachInterrupt d f s) = attachInterrupt d f s
   \<and> detachInterrupt (detachInterrupt s) = detachInterrupt s
   \<and> getCallback (attachInterrupt d f s) = f
   \<and> getCallback (detachInterrupt s) = emptyCallback"
  by (simp add: attachInterrupt_def detachInterrupt_def getCallback_def set_isrCallback_def
      Let_def or.assoc)

text \<open>
  C10. \<open>detachInterrupt\<close> leaves \<open>TIMSK1\<close> at zero, \<open>attachInterrupt\<close> only ors the
  \<open>OCIE1A\<close> bit into it: when another bit of \<open>TIMSK1\<close> was set before, attaching and then
  detaching does not give the register its former value back.
\<close>

theorem detach_clears_all_of_TIMSK1:
  "TIMSK1 (detachInterrupt s) = 0
   \<and> TIMSK1 (attachInterrupt d f s) = TIMSK1 s OR ucast (BV (OCIE1A d))
   \<and> (TIMSK1 s AND NOT (ucast (BV (OCIE1A d))) \<noteq> 0 \<longrightarrow>
        TIMSK1 (detachInterrupt (attachInterrupt d f s)) \<noteq> TIMSK1 s)"
  by (auto simp: attachInterrupt_def detachInterrupt_def set_isrCallback_def Let_def)

theorem detach_clears_all_of_TIMSK1_witness:
  "TIMSK1 (power_on\<lparr>TIMSK1 := 1\<rparr>) AND NOT (ucast (BV (OCIE1A atmega328p))) \<noteq> 0
   \<and> TIMSK1 (attachInterrupt atmega328p (UserFunction 7) (power_on\<lparr>TIMSK1 := 1\<rparr>)) = 3
   \<and> TIMSK1 (detachInterrupt (attachInterrupt atmega328p (UserFunction 7) (power_on\<lparr>TIMSK1 := 1\<rparr>)))
       \<noteq> TIMSK1 (power_on\<lparr>TIMSK1 := 1\<rparr>)"
  using detach_clears_all_of_TIMSK1 [of "power_on\<lparr>TIMSK1 := 1\<rparr>" atmega328p "UserFunction 7"]
  by (simp add: atmega328p_def BV_def power_on_def)


subsection \<open>The singleton pointer\<close>

lemma SINGLETON_exec: "SINGLETON (exec d c s) = SINGLETON s"
proof (cases c)
  case (Call_setPeriod period)
  then show ?thesis
    using setPeriod_cases [of d period s]
    by (auto simp: configure_entry_fields clamp_to_max_fields)
qed (simp_all add: MiniTimerOne_ctor_def init_def attachInterrupt_def detachInterrupt_def
      start_def stop_def reset_def set_isrCallback_def set_clockSelectBits_def sei_def cli_def
      set_TCNT1_def Let_def)

lemma SINGLETON_run: "SINGLETON (run d cs s) = SINGLETON s"
  by (induction cs arbitrary: s) (simp_all add: SINGLETON_exec)

lemma MiniTimer1_init_valid:
  "MiniTimer1_init (s\<lparr>SINGLETON := Ref obj\<rparr>) = Inr (s\<lparr>SINGLETON := Ref obj, this_obj := obj\<rparr>)"
  by (simp add: MiniTimer1_init_def getInstance_def)

lemma ISR_calls_attached:
  "ISR_TIMER1_COMPA (attachInterrupt d f s) = f"
  "ISR_TIMER1_COMPA (detachInterrupt s) = emptyCallback"
  by (simp_all add: ISR_TIMER1_COMPA_def getCallback_def attachInterrupt_def detachInterrupt_def
      set_isrCallback_def Let_def)

text \<open>
  C8. \<open>SINGLETON\<close> is value-initialised to the null pointer and no function of the file
  assigns it: after any sequence of calls \<open>getInstance\<close> returns the null pointer. So the
  initialiser of the file-scope object \<open>MiniTimer1\<close> dereferences the null pointer, at start
  and wherever it were evaluated later; every execution stops there with that fault, and
  the handler, which reads \<open>MiniTimer1\<close>, is never reached with an object that was validly
  initialised.
\<close>

theorem getInstance_always_null:
  "getInstance (run d cs (SINGLETON_value_init s)) = nullptr
   \<and> MiniTimer1_init (run d cs (SINGLETON_value_init s)) = Inl NullDereference
   \<and> static_initialisation s = Inl NullDereference
   \<and> execution d cs s = Inl NullDereference
   \<and> interrupt_after d cs s = Inl NullDereference"
proof -
  have n: "getInstance (run d cs (SINGLETON_value_init s)) = nullptr"
    by (simp add: getInstance_def SINGLETON_run SINGLETON_value_init_def)
  then have i: "MiniTimer1_init (run d cs (SINGLETON_value_init s)) = Inl NullDereference"
    by (simp add: MiniTimer1_init_def)
  have st: "static_initialisation s = Inl NullDereference"
    by (simp add: static_initialisation_def MiniTimer1_init_def getInstance_def
        SINGLETON_value_init_def)
  then have "execution d cs s = Inl NullDereference"
    by (simp add: execution_def)
  moreover from this have "interrupt_after d cs s = Inl NullDereference"
    by (simp add: interrupt_after_def)
  ultimately show ?thesis using n i st by simp
qed

section \<open>Properties of the Scheduler\<close>

lemma Scheduler_init_well_formed:
  "length (taskList sch) = 10 \<Longrightarrow>
   well_formed (fst (Scheduler_init env bp sch w)) \<and> registered (fst (Scheduler_init env bp sch w)) = []"
  by (simp add: Scheduler_init_def well_formed_def registered_def MAX_TASKS_def)

lemma schedule_loop_exit:
  "\<not> int i < nTasks sch \<Longrightarrow> schedule_loop env sch i (w, tr) = Inr (w, tr)"
  by (simp add: schedule_loop.simps)

lemma schedule_loop_step:
  "int i < nTasks sch \<Longrightarrow> i < length (taskList sch) \<Longrightarrow>
   schedule_loop env sch i (w, tr) =
     (case updateAndCheckTime env (taskList sch ! i) (basePeriod sch) w of
        (due, w1) \<Rightarrow>
          if due
          then schedule_loop env sch (Suc i)
                 (tick env (taskList sch ! i) w1,
                  tr @ [Ev_updateAndCheckTime (taskList sch ! i) (basePeriod sch) due,
                        Ev_tick (taskList sch ! i)])
          else schedule_loop env sch (Suc i)
                 (w1, tr @ [Ev_updateAndCheckTime (taskList sch ! i) (basePeriod sch) due]))"
  by (subst schedule_loop.simps) (simp split: prod.split)

lemma registered_drop:
  "well_formed sch \<Longrightarrow> int i < nTasks sch \<Longrightarrow>
   drop i (registered sch) = taskList sch ! i # drop (Suc i) (registered sch)"
proof -
  assume wf: "well_formed sch" and lt: "int i < nTasks sch"
  have len: "i < length (registered sch)"
    using wf lt by (simp add: registered_def well_formed_def MAX_TASKS_def)
  moreover have "registered sch ! i = taskList sch ! i"
    using lt by (simp add: registered_def)
  ultimately show ?thesis
    using Cons_nth_drop_Suc [of i "registered sch"] by simp
qed

lemma schedule_loop_is_pass:
  assumes "well_formed sch"
  shows "schedule_loop env sch i wt =
         Inr (in_order_pass env (basePeriod sch) (drop i (registered sch)) wt)"
proof (induction "nat (nTasks sch) - i" arbitrary: i wt)
  case 0
  obtain w tr where wt: "wt = (w, tr)" by (cases wt)
  from 0 have ex: "\<not> int i < nTasks sch" by simp
  then have "drop i (registered sch) = []" by (simp add: registered_def)
  with ex show ?case by (simp add: wt schedule_loop_exit)
next
  case (Suc n)
  obtain w tr where wt: "wt = (w, tr)" by (cases wt)
  from Suc.hyps(2) have lt: "int i < nTasks sch" by simp
  then have len: "i < length (taskList sch)"
    using assms by (simp add: well_formed_def MAX_TASKS_def)
  have n: "n = nat (nTasks sch) - Suc i" using Suc.hyps(2) by simp
  show ?case
    unfolding wt registered_drop [OF assms lt]
    by (simp add: schedule_loop_step [OF lt len] Suc.hyps(1) [OF n] split: prod.split)
qed

lemma in_order_pass_events:
  "\<exists>w' answers. in_order_pass env bp ts (w, tr) = (w', tr @ pass_events bp (zip ts answers))
     \<and> length answers = length ts"
proof (induction ts arbitrary: w tr)
  case Nil
  then show ?case by simp
next
  case (Cons t ts)
  obtain due w1 where u: "updateAndCheckTime env t bp w = (due, w1)"
    by (cases "updateAndCheckTime env t bp w")
  let ?w2 = "if due then tick env t w1 else w1"
  let ?tr2 = "tr @ Ev_updateAndCheckTime t bp due # (if due then [Ev_tick t] else [])"
  from Cons.IH [of ?w2 ?tr2] obtain w' answers where
    r: "in_order_pass env bp ts (?w2, ?tr2) = (w', ?tr2 @ pass_events bp (zip ts answers))"
    and l: "length answers = length ts" by blast
  have "in_order_pass env bp (t # ts) (w, tr) = (w', tr @ pass_events bp (zip (t # ts) (due # answers)))"
    using r by (cases due) (simp_all add: u)
  moreover have "length (due # answers) = length (t # ts)" using l by simp
  ultimately show ?case by blast
qed


text \<open>
  C5. On a well-formed scheduler, \<open>schedule\<close> waits for the tick and then is the in-order
  pass over the registered tasks: one \<open>updateAndCheckTime (basePeriod)\<close> for each registered
  task, in registration order, each followed at once by that task's \<open>tick\<close> when it answered
  true, before the next task is looked at.
\<close>

theorem schedule_in_registration_order:
  assumes "well_formed sch"
  shows "schedule env sch (w, tr) =
           Inr (in_order_pass env (basePeriod sch) (registered sch)
                  (waitForNextTick env w, tr @ [Ev_waitForNextTick]))
    \<and> (\<exists>w' answers. schedule env sch (w, tr) =
           Inr (w', tr @ Ev_waitForNextTick # pass_events (basePeriod sch) (zip (registered sch) answers))
         \<and> length answers = length (registered sch))"
proof -
  have s: "schedule env sch (w, tr) =
           Inr (in_order_pass env (basePeriod sch) (registered sch)
                  (waitForNextTick env w, tr @ [Ev_waitForNextTick]))"
    using schedule_loop_is_pass [OF assms, of env 0] by (simp add: schedule_def)
  obtain w' answers where
    p: "in_order_pass env (basePeriod sch) (registered sch)
        (waitForNextTick env w, tr @ [Ev_waitForNextTick]) =
      (w', (tr @ [Ev_waitForNextTick]) @ pass_events (basePeriod sch) (zip (registered sch) answers))"
    and l: "length answers = length (registered sch)"
    using in_order_pass_events [of env "basePeriod sch" "registered sch"
        "waitForNextTick env w" "tr @ [Ev_waitForNextTick]"] by blast
  have "schedule env sch (w, tr) =
          Inr (w', tr @ Ev_waitForNextTick # pass_events (basePeriod sch) (zip (registered sch) answers))"
    by (simp add: s p)
  with l s show ?thesis by blast
qed

theorem schedule_in_registration_order_witness:
  "well_formed demo_scheduler
   \<and> registered demo_scheduler = [1, 2]
   \<and> schedule demo_collaborators demo_scheduler (0, []) =
       Inr (1, [Ev_waitForNextTick, Ev_updateAndCheckTime 1 1000 True, Ev_tick 1,
                Ev_updateAndCheckTime 2 1000 False])"
proof -
  have wf: "well_formed demo_scheduler"
    by (simp add: well_formed_def demo_scheduler_def MAX_TASKS_def)
  have r: "registered demo_scheduler = [1, 2]"
    by (simp add: registered_def demo_scheduler_def)
  have b: "basePeriod demo_scheduler = 1000"
    by (simp add: demo_scheduler_def)
  from schedule_in_registration_order [OF wf, of demo_collaborators 0 "[]"]
  have "schedule demo_collaborators demo_scheduler (0, []) =
          Inr (in_order_pass demo_collaborators 1000 [1, 2]
                 (waitForNextTick demo_collaborators 0, [Ev_waitForNextTick]))"
    by (simp add: r b)
  then show ?thesis
    using wf r by (simp add: demo_collaborators_def)
qed

lemma registered_append:
  assumes "0 \<le> nTasks sch" "nat (nTasks sch) < length (taskList sch)"
  shows "registered (sch\<lparr>taskList := (taskList sch)[nat (nTasks sch) := task],
                        nTasks := nTasks sch + 1\<rparr>) = registered sch @ [task]"
proof -
  have "nat (nTasks sch + 1) = Suc (nat (nTasks sch))" using assms(1) by simp
  then show ?thesis
    using assms(2) by (simp add: registered_def take_Suc_conv_app_nth)
qed

text \<open>
  C6. On a well-formed scheduler with fewer than 9 tasks, \<open>addTask\<close> returns true and the
  registered sequence grows by the new task at its end; with 9 tasks it returns false and
  the scheduler is unchanged. 9 is \<open>MAX_TASKS - 1\<close>.
\<close>

theorem addTask_capacity:
  assumes "well_formed sch"
  shows "(nTasks sch < 9 \<longrightarrow>
            (\<exists>sch'. addTask task sch = Inr (True, sch')
               \<and> registered sch' = registered sch @ [task]
               \<and> nTasks sch' = nTasks sch + 1
               \<and> basePeriod sch' = basePeriod sch
               \<and> well_formed sch'))
       \<and> (nTasks sch = 9 \<longrightarrow> addTask task sch = Inr (False, sch))
       \<and> length (registered sch) = nat (nTasks sch)
       \<and> MAX_TASKS - 1 = 9"
proof -
  have len: "length (taskList sch) = 10" and lo: "0 \<le> nTasks sch" and hi: "nTasks sch \<le> 9"
    using assms by (simp_all add: well_formed_def MAX_TASKS_def)
  have full: "addTask task sch = Inr (False, sch)" if "nTasks sch = 9"
    using that by (simp add: addTask_def MAX_TASKS_def)
  have free: "\<exists>sch'. addTask task sch = Inr (True, sch')
               \<and> registered sch' = registered sch @ [task]
               \<and> nTasks sch' = nTasks sch + 1
               \<and> basePeriod sch' = basePeriod sch
               \<and> well_formed sch'" if "nTasks sch < 9"
  proof -
    let ?sch' = "sch\<lparr>taskList := (taskList sch)[nat (nTasks sch) := task], nTasks := nTasks sch + 1\<rparr>"
    have idx: "nat (nTasks sch) < length (taskList sch)" using that lo len by simp
    have "addTask task sch = Inr (True, ?sch')"
      using that lo idx by (simp add: addTask_def MAX_TASKS_def)
    moreover have "registered ?sch' = registered sch @ [task]"
      using lo idx by (rule registered_append)
    moreover have "well_formed ?sch'"
      using that lo len by (simp add: well_formed_def MAX_TASKS_def)
    ultimately show ?thesis by simp
  qed
  have "length (registered sch) = nat (nTasks sch)"
    using len hi by (simp add: registered_def)
  with full free show ?thesis by (simp add: MAX_TASKS_def)
qed

theorem addTask_capacity_witness:
  "well_formed demo_scheduler \<and> nTasks demo_scheduler < 9
   \<and> (\<exists>sch'. addTask 3 demo_scheduler = Inr (True, sch')
        \<and> registered sch' = registered demo_scheduler @ [3]
        \<and> nTasks sch' = nTasks demo_scheduler + 1
        \<and> basePeriod sch' = basePeriod demo_scheduler
        \<and> well_formed sch')
   \<and> well_formed full_scheduler \<and> nTasks full_scheduler = 9
   \<and> addTask 10 full_scheduler = Inr (False, full_scheduler)"
proof -
  have wf: "well_formed demo_scheduler"
    by (simp add: well_formed_def demo_scheduler_def MAX_TASKS_def)
  have wf': "well_formed full_scheduler"
    by (simp add: well_formed_def full_scheduler_def MAX_TASKS_def)
  have n: "nTasks demo_scheduler < 9" by (simp add: demo_scheduler_def)
  have n': "nTasks full_scheduler = 9" by (simp add: full_scheduler_def)
  show ?thesis
    using addTask_capacity [OF wf, of 3] addTask_capacity [OF wf', of 10] wf wf' n n'
    by simp
qed

end
